theory Spec2Isabelle
  imports Main
begin

section \<open>The note model\<close>

text \<open>
  The service of \<^verbatim>\<open>note_api/main.py\<close> imports \<^verbatim>\<open>Note\<close> and \<^verbatim>\<open>CreateNoteRequest\<close> from
  \<^verbatim>\<open>note_api/model.py\<close> and the storage backends from \<^verbatim>\<open>note_api/backends.py\<close>.
  The definitions for \<^verbatim>\<open>main.py\<close> follow its code; those for the two imported modules
  follow the specification (sections 3, 4 and 7) and say so.
\<close>

text \<open>Modelled from the spec: the failure taxonomy of section 7 (the exceptions that the
  backends of \<^verbatim>\<open>backends.py\<close> raise).\<close>

datatype error = NotFound | BackendUnavailable

text \<open>Modelled from the spec: \<^verbatim>\<open>model.Note\<close>, an identifier, a title and a content.\<close>

record Note =
  note_id :: string
  title :: string
  content :: string

text \<open>Modelled from the spec: \<^verbatim>\<open>model.CreateNoteRequest\<close>, a title and a content, no
  identifier.\<close>

record CreateNoteRequest =
  req_title :: string
  req_content :: string

section \<open>The storage backends\<close>

text \<open>Modelled from the spec: the wire payload of the two network backends, a structured
  record with the fields title and content; the identifier is the storage key.\<close>

record payload =
  p_title :: string
  p_content :: string

definition serialize :: "CreateNoteRequest \<Rightarrow> payload" where
  "serialize request = \<lparr>p_title = req_title request, p_content = req_content request\<rparr>"

definition deserialize :: "string \<Rightarrow> payload \<Rightarrow> Note" where
  "deserialize key p = \<lparr>note_id = key, title = p_title p, content = p_content p\<rparr>"

text \<open>Modelled from the spec: the external service behind a network backend (the key-value
  cache, the bucket of the object store). \<open>reachable\<close> says whether the network calls to
  it succeed; \<open>entries\<close> is what it stores, one payload per key, in the order in which the
  keys were first written.\<close>

record service =
  reachable :: bool
  entries :: "(string \<times> payload) list"

text \<open>Insert or overwrite in a mapping that keeps insertion order, as a Python
  \<^verbatim>\<open>dict\<close> does on \<^verbatim>\<open>d[k] = v\<close>.\<close>

fun upsert :: "'k \<Rightarrow> 'v \<Rightarrow> ('k \<times> 'v) list \<Rightarrow> ('k \<times> 'v) list" where
  "upsert k v [] = [(k, v)]"
| "upsert k v (kv # kvs) = (if fst kv = k then (k, v) # kvs else kv # upsert k v kvs)"

text \<open>Modelled from the spec: the three variants of \<^verbatim>\<open>backends.py\<close> (sections 4.2 to 4.4).
  The memory backend owns a mapping from key to note; the two others hold the connection
  to their service.\<close>

datatype Backend =
    MemoryBackend "(string \<times> Note) list"
  | RedisBackend service
  | GCSBackend service

datatype variant = Memory | RemoteCache | ObjectStore

fun variant_of :: "Backend \<Rightarrow> variant" where
  "variant_of (MemoryBackend storage) = Memory"
| "variant_of (RedisBackend svc) = RemoteCache"
| "variant_of (GCSBackend svc) = ObjectStore"

text \<open>Modelled from the spec: a lookup in a service fails with \<open>BackendUnavailable\<close> when
  the network call fails and with \<open>NotFound\<close> when the key is absent.\<close>

definition service_get :: "string \<Rightarrow> service \<Rightarrow> error + Note" where
  "service_get key svc =
     (if \<not> reachable svc then Inl BackendUnavailable
      else case map_of (entries svc) key of
             None \<Rightarrow> Inl NotFound
           | Some p \<Rightarrow> Inr (deserialize key p))"

definition service_set :: "string \<Rightarrow> CreateNoteRequest \<Rightarrow> service \<Rightarrow> error + service" where
  "service_set key request svc =
     (if \<not> reachable svc then Inl BackendUnavailable
      else Inr (svc\<lparr>entries := upsert key (serialize request) (entries svc)\<rparr>))"

definition service_keys :: "service \<Rightarrow> error + string list" where
  "service_keys svc =
     (if \<not> reachable svc then Inl BackendUnavailable else Inr (map fst (entries svc)))"

text \<open>Modelled from the spec: \<^verbatim>\<open>Backend.get\<close>, \<^verbatim>\<open>Backend.set\<close> and \<^verbatim>\<open>Backend.keys\<close> of
  \<^verbatim>\<open>backends.py\<close>. \<open>set\<close> mutates the backend; the model returns the backend after the
  call.\<close>

fun Backend_get :: "string \<Rightarrow> Backend \<Rightarrow> error + Note" where
  "Backend_get key (MemoryBackend storage) =
     (case map_of storage key of None \<Rightarrow> Inl NotFound | Some n \<Rightarrow> Inr n)"
| "Backend_get key (RedisBackend svc) = service_get key svc"
| "Backend_get key (GCSBackend svc) = service_get key svc"

fun Backend_set :: "string \<Rightarrow> CreateNoteRequest \<Rightarrow> Backend \<Rightarrow> error + Backend" where
  "Backend_set key request (MemoryBackend storage) =
     Inr (MemoryBackend
       (upsert key \<lparr>note_id = key, title = req_title request, content = req_content request\<rparr>
          storage))"
| "Backend_set key request (RedisBackend svc) =
     (case service_set key request svc of Inl e \<Rightarrow> Inl e | Inr svc' \<Rightarrow> Inr (RedisBackend svc'))"
| "Backend_set key request (GCSBackend svc) =
     (case service_set key request svc of Inl e \<Rightarrow> Inl e | Inr svc' \<Rightarrow> Inr (GCSBackend svc'))"

fun Backend_keys :: "Backend \<Rightarrow> error + string list" where
  "Backend_keys (MemoryBackend storage) = Inr (map fst storage)"
| "Backend_keys (RedisBackend svc) = service_keys svc"
| "Backend_keys (GCSBackend svc) = service_keys svc"

text \<open>Whether the calls of a backend reach its store: always for the memory backend, when
  the service is reachable for the two others.\<close>

fun available :: "Backend \<Rightarrow> bool" where
  "available (MemoryBackend storage) = True"
| "available (RedisBackend svc) = reachable svc"
| "available (GCSBackend svc) = reachable svc"

text \<open>The keys under which a backend's store holds a note.\<close>

fun stored_keys :: "Backend \<Rightarrow> string list" where
  "stored_keys (MemoryBackend storage) = map fst storage"
| "stored_keys (RedisBackend svc) = map fst (entries svc)"
| "stored_keys (GCSBackend svc) = map fst (entries svc)"

section \<open>The backend selector\<close>

text \<open>
  What \<^verbatim>\<open>get_backend\<close> reads from outside the program: the process environment
  (\<^verbatim>\<open>os.getenv\<close>) and the services that the constructors of the network backends
  connect to.
\<close>

record world =
  environ :: "string \<Rightarrow> string option"
  redis_service :: service
  gcs_service :: service

definition getenv :: "world \<Rightarrow> string \<Rightarrow> string \<Rightarrow> string" where
  "getenv w key dflt = (case environ w key of None \<Rightarrow> dflt | Some v \<Rightarrow> v)"

text \<open>Modelled from the spec: the constructors of \<^verbatim>\<open>backends.py\<close>. A memory backend starts
  with an empty mapping; a network backend is set up once, on the service of its
  configuration.\<close>

definition new_MemoryBackend :: "Backend" where
  "new_MemoryBackend = MemoryBackend []"

definition new_RedisBackend :: "world \<Rightarrow> Backend" where
  "new_RedisBackend w = RedisBackend (redis_service w)"

definition new_GCSBackend :: "world \<Rightarrow> Backend" where
  "new_GCSBackend w = GCSBackend (gcs_service w)"

text \<open>
  The state of the module: the global \<^verbatim>\<open>my_backend\<close> (a reference, or \<^verbatim>\<open>None\<close>), the
  objects constructed so far (a reference is an index into \<open>heap\<close>), and what
  \<^verbatim>\<open>print\<close> has written.
\<close>

record app_state =
  my_backend :: "nat option"
  heap :: "Backend list"
  stdout :: "string list"

definition initial_state :: "app_state" where
  "initial_state = \<lparr>my_backend = None, heap = [], stdout = []\<rparr>"

definition alloc :: "Backend \<Rightarrow> app_state \<Rightarrow> nat \<times> app_state" where
  "alloc obj s = (length (heap s), s\<lparr>heap := heap s @ [obj]\<rparr>)"

definition deref :: "app_state \<Rightarrow> nat \<Rightarrow> Backend option" where
  "deref s a = (if a < length (heap s) then Some (heap s ! a) else None)"

definition get_backend :: "world \<Rightarrow> app_state \<Rightarrow> nat \<times> app_state" where
  "get_backend w s =
     (case my_backend s of
        None \<Rightarrow>
          (let backend_type = getenv w ''BACKEND'' ''memory'';
               s1 = s\<lparr>stdout := stdout s @ [backend_type]\<rparr>;
               (a, s2) = (if backend_type = ''redis'' then alloc (new_RedisBackend w) s1
                          else if backend_type = ''gcs'' then alloc (new_GCSBackend w) s1
                          else alloc new_MemoryBackend s1)
           in (a, s2\<lparr>my_backend := Some a\<rparr>))
      | Some a \<Rightarrow> (a, s))"

text \<open>The object that an access to the selector hands to the caller.\<close>

definition selected :: "world \<Rightarrow> app_state \<Rightarrow> Backend option" where
  "selected w s = (case get_backend w s of (a, s1) \<Rightarrow> deref s1 a)"

text \<open>Concrete environments: \<^verbatim>\<open>BACKEND\<close> unset, and \<^verbatim>\<open>BACKEND\<close> set to a given value; both
  services reachable and empty.\<close>

definition empty_service :: "service" where
  "empty_service = \<lparr>reachable = True, entries = []\<rparr>"

definition world_unset :: "world" where
  "world_unset =
     \<lparr>environ = map_of [], redis_service = empty_service, gcs_service = empty_service\<rparr>"

definition world_of :: "string \<Rightarrow> world" where
  "world_of v =
     \<lparr>environ = map_of [(''BACKEND'', v)], redis_service = empty_service,
      gcs_service = empty_service\<rparr>"

text \<open>A sequence of accesses, each under its own environment; the references returned, in
  order, and the final state.\<close>

fun accesses :: "world list \<Rightarrow> app_state \<Rightarrow> nat list \<times> app_state" where
  "accesses [] s = ([], s)"
| "accesses (w # ws) s =
     (case get_backend w s of (a, s1) \<Rightarrow>
        (case accesses ws s1 of (rest, s2) \<Rightarrow> (a # rest, s2)))"

section \<open>Interleaved first accesses\<close>

text \<open>
  \<^verbatim>\<open>get_backend\<close> takes no lock, and the framework runs a synchronous dependency of
  concurrent requests on several threads. A caller is therefore followed through the two
  steps of the function: the test \<^verbatim>\<open>my_backend is None\<close> (line 37), and then, for a
  caller that saw \<^verbatim>\<open>None\<close>, lines 38 to 46 (read the variable, print, construct, assign,
  return).
\<close>

datatype caller = Entered | SawNone | Returned nat

text \<open>Lines 38 to 46 of \<^verbatim>\<open>get_backend\<close>, the body under the test.\<close>

definition construct_and_assign :: "world \<Rightarrow> app_state \<Rightarrow> nat \<times> app_state" where
  "construct_and_assign w s =
     (let backend_type = getenv w ''BACKEND'' ''memory'';
          s1 = s\<lparr>stdout := stdout s @ [backend_type]\<rparr>;
          (a, s2) = (if backend_type = ''redis'' then alloc (new_RedisBackend w) s1
                     else if backend_type = ''gcs'' then alloc (new_GCSBackend w) s1
                     else alloc new_MemoryBackend s1)
      in (a, s2\<lparr>my_backend := Some a\<rparr>))"

fun caller_step :: "world \<Rightarrow> app_state \<Rightarrow> caller \<Rightarrow> caller \<times> app_state" where
  "caller_step w s Entered =
     (case my_backend s of None \<Rightarrow> (SawNone, s) | Some a \<Rightarrow> (Returned a, s))"
| "caller_step w s SawNone =
     (case construct_and_assign w s of (a, s') \<Rightarrow> (Returned a, s'))"
| "caller_step w s (Returned a) = (Returned a, s)"




section \<open>The request handlers\<close>

text \<open>
  Each handler receives the backend that \<^verbatim>\<open>Depends(get_backend)\<close> resolved. The tracing
  spans that wrap the handler bodies do not change what the handlers return or store and
  are left out. A handler that calls \<^verbatim>\<open>backend.set\<close> returns the backend after the call.
\<close>

fun get_notes_loop :: "Backend \<Rightarrow> string list \<Rightarrow> Note list \<Rightarrow> error + Note list" where
  "get_notes_loop backend [] Notes = Inr Notes"
| "get_notes_loop backend (key # keys) Notes =
     (case Backend_get key backend of
        Inl e \<Rightarrow> Inl e
      | Inr n \<Rightarrow> get_notes_loop backend keys (Notes @ [n]))"

definition get_notes :: "Backend \<Rightarrow> error + Note list" where
  "get_notes backend =
     (case Backend_keys backend of
        Inl e \<Rightarrow> Inl e
      | Inr keys \<Rightarrow> get_notes_loop backend keys [])"

definition get_note :: "string \<Rightarrow> Backend \<Rightarrow> error + Note" where
  "get_note nid backend = Backend_get nid backend"

definition update_note :: "string \<Rightarrow> CreateNoteRequest \<Rightarrow> Backend \<Rightarrow> error + Backend" where
  "update_note nid request backend = Backend_set nid request backend"

text \<open>\<^verbatim>\<open>create_note\<close> draws its identifier from \<^verbatim>\<open>str(uuid4())\<close>; the string drawn is the
  argument \<open>uuid4\<close>.\<close>

definition create_note :: "string \<Rightarrow> CreateNoteRequest \<Rightarrow> Backend \<Rightarrow> error + (string \<times> Backend)" where
  "create_note uuid4 request backend =
     (let nid = uuid4 in
      case Backend_set nid request backend of
        Inl e \<Rightarrow> Inl e
      | Inr backend' \<Rightarrow> Inr (nid, backend'))"

section \<open>Sequences of calls\<close>

text \<open>The calls of the round-trip properties: \<^verbatim>\<open>set(id, request)\<close> and then \<^verbatim>\<open>get(id)\<close>,
  through the handlers \<^verbatim>\<open>update_note\<close> and \<^verbatim>\<open>get_note\<close>. An exception of the first call
  ends the sequence.\<close>

definition set_then_get :: "string \<Rightarrow> CreateNoteRequest \<Rightarrow> Backend \<Rightarrow> error + Note" where
  "set_then_get nid request backend =
     (case update_note nid request backend of
        Inl e \<Rightarrow> Inl e
      | Inr backend' \<Rightarrow> get_note nid backend')"

definition set_set_then_get ::
  "string \<Rightarrow> CreateNoteRequest \<Rightarrow> CreateNoteRequest \<Rightarrow> Backend \<Rightarrow> error + Note" where
  "set_set_then_get nid request1 request2 backend =
     (case update_note nid request1 backend of
        Inl e \<Rightarrow> Inl e
      | Inr backend' \<Rightarrow> set_then_get nid request2 backend')"

text \<open>A history of \<^verbatim>\<open>set\<close> calls on a backend, in order.\<close>

fun run_sets :: "(string \<times> CreateNoteRequest) list \<Rightarrow> Backend \<Rightarrow> error + Backend" where
  "run_sets [] backend = Inr backend"
| "run_sets (c # cs) backend =
     (case update_note (fst c) (snd c) backend of
        Inl e \<Rightarrow> Inl e
      | Inr backend' \<Rightarrow> run_sets cs backend')"

text \<open>The notes of a list of \<^verbatim>\<open>get\<close> results, in order; the first failure, if there is
  one.\<close>

fun collect :: "(error + 'a) list \<Rightarrow> error + 'a list" where
  "collect [] = Inr []"
| "collect (Inl e # rs) = Inl e"
| "collect (Inr x # rs) = (case collect rs of Inl e \<Rightarrow> Inl e | Inr xs \<Rightarrow> Inr (x # xs))"

text \<open>Concrete requests, a service whose network calls fail, and an environment whose
  bucket already holds an object.\<close>

definition unreachable_service :: "service" where
  "unreachable_service = \<lparr>reachable = False, entries = []\<rparr>"

definition request1 :: "CreateNoteRequest" where
  "request1 = \<lparr>req_title = ''shopping'', req_content = ''milk''\<rparr>"

definition request2 :: "CreateNoteRequest" where
  "request2 = \<lparr>req_title = ''todo'', req_content = ''call''\<rparr>"

definition world_with_note :: "world" where
  "world_with_note =
     \<lparr>environ = map_of [(''BACKEND'', ''gcs'')], redis_service = empty_service,
      gcs_service =
        \<lparr>reachable = True, entries = [(''n1'', \<lparr>p_title = ''old'', p_content = ''kept''\<rparr>)]\<rparr>\<rparr>"

section \<open>Properties of the backend selector\<close>

lemma get_backend_Some: "my_backend s = Some a \<Longrightarrow> get_backend w s = (a, s)"
  by (simp add: get_backend_def)

lemma getenv_BACKEND_redis:
  "(getenv w ''BACKEND'' ''memory'' = ''redis'') = (environ w ''BACKEND'' = Some ''redis'')"
  by (simp add: getenv_def split: option.splits)

lemma getenv_BACKEND_gcs:
  "(getenv w ''BACKEND'' ''memory'' = ''gcs'') = (environ w ''BACKEND'' = Some ''gcs'')"
  by (simp add: getenv_def split: option.splits)

lemma get_backend_None:
  "my_backend s = None \<Longrightarrow>
   get_backend w s =
     (length (heap s),
      s\<lparr>stdout := stdout s @ [getenv w ''BACKEND'' ''memory''],
        heap := heap s @
          [if environ w ''BACKEND'' = Some ''redis'' then new_RedisBackend w
           else if environ w ''BACKEND'' = Some ''gcs'' then new_GCSBackend w
           else new_MemoryBackend],
        my_backend := Some (length (heap s))\<rparr>)"
  by (simp add: get_backend_def alloc_def Let_def getenv_BACKEND_redis getenv_BACKEND_gcs)

lemma get_backend_ready: "get_backend w s = (a, s1) \<Longrightarrow> my_backend s1 = Some a"
  by (cases "my_backend s") (auto simp: get_backend_Some get_backend_None)

lemma accesses_ready:
  "my_backend s = Some a \<Longrightarrow> accesses ws s = (replicate (length ws) a, s)"
  by (induction ws) (simp_all add: get_backend_Some)

text \<open>
  Claim C1, as the code has it. The values of \<^verbatim>\<open>BACKEND\<close> that the selector recognises are
  \<^verbatim>\<open>redis\<close> and \<^verbatim>\<open>gcs\<close>. An access in the uninitialised state constructs exactly one
  object: the remote-cache variant for \<^verbatim>\<open>redis\<close>, the object-store variant for \<^verbatim>\<open>gcs\<close>,
  and the memory variant for every other value and for no value at all. The access
  always returns a reference to that object; the selector has no error path.
\<close>

theorem get_backend_constructs:
  "my_backend s = None \<Longrightarrow> get_backend w s = (a, s1) \<Longrightarrow>
     a = length (heap s)
     \<and> my_backend s1 = Some a
     \<and> heap s1 = heap s @
          [if environ w ''BACKEND'' = Some ''redis'' then new_RedisBackend w
           else if environ w ''BACKEND'' = Some ''gcs'' then new_GCSBackend w
           else new_MemoryBackend]
     \<and> map_option variant_of (selected w s) =
          Some (if environ w ''BACKEND'' = Some ''redis'' then RemoteCache
                else if environ w ''BACKEND'' = Some ''gcs'' then ObjectStore
                else Memory)"
  by (auto simp: get_backend_None selected_def deref_def new_RedisBackend_def
        new_GCSBackend_def new_MemoryBackend_def)

theorem get_backend_constructs_witness:
  "my_backend initial_state = None
   \<and> get_backend (world_of ''gcs'') initial_state =
       (0, \<lparr>my_backend = Some 0, heap = [GCSBackend empty_service], stdout = [''gcs'']\<rparr>)
   \<and> map_option variant_of (selected (world_of ''gcs'') initial_state) = Some ObjectStore"
proof -
  have uninit: "my_backend initial_state = None"
    by (simp add: initial_state_def)
  have run: "get_backend (world_of ''gcs'') initial_state =
       (0, \<lparr>my_backend = Some 0, heap = [GCSBackend empty_service], stdout = [''gcs'']\<rparr>)"
    by (simp add: get_backend_def world_of_def initial_state_def getenv_def alloc_def
          new_GCSBackend_def)
  from get_backend_constructs [OF uninit run] show ?thesis
    using uninit run by (simp add: world_of_def)
qed

text \<open>
  Claim C1, as stated, names the values \<^verbatim>\<open>remote-cache\<close> and \<^verbatim>\<open>object-store\<close>. The code does
  not recognise them: under either value the first access constructs the memory variant.
\<close>

theorem get_backend_remote_cache_counterexample:
  "map_option variant_of (selected (world_of ''remote-cache'') initial_state) = Some Memory
   \<and> map_option variant_of (selected (world_of ''remote-cache'') initial_state)
       \<noteq> Some RemoteCache
   \<and> map_option variant_of (selected (world_of ''object-store'') initial_state) = Some Memory
   \<and> map_option variant_of (selected (world_of ''object-store'') initial_state)
       \<noteq> Some ObjectStore"
  by (simp add: selected_def get_backend_def world_of_def initial_state_def getenv_def
        alloc_def deref_def new_MemoryBackend_def)

text \<open>
  Claim C2. Once an access has returned a reference \<open>a\<close>, the global holds \<open>a\<close>; every
  later access, under any environment and after any change to the constructed objects,
  returns \<open>a\<close> and leaves the state as it is (no object is constructed, nothing is
  printed, and the result does not depend on the environment, which is not read); the
  global is never \<^verbatim>\<open>None\<close> again.
\<close>

theorem get_backend_cached:
  "get_backend w s = (a, s1) \<Longrightarrow>
     my_backend s1 = Some a
     \<and> (\<forall>w'. get_backend w' s1 = (a, s1))
     \<and> (\<forall>ws. accesses ws s1 = (replicate (length ws) a, s1))
     \<and> (\<forall>w' s2. my_backend s2 = my_backend s1 \<longrightarrow>
           get_backend w' s2 = (a, s2) \<and> my_backend (snd (get_backend w' s2)) \<noteq> None)"
  using get_backend_ready [of w s a s1]
  by (simp add: get_backend_Some accesses_ready)

theorem get_backend_cached_witness:
  "get_backend (world_of ''redis'') initial_state =
     (0, \<lparr>my_backend = Some 0, heap = [RedisBackend empty_service], stdout = [''redis'']\<rparr>)
   \<and> get_backend (world_of ''gcs'')
       \<lparr>my_backend = Some 0, heap = [RedisBackend empty_service], stdout = [''redis'']\<rparr>
     = (0, \<lparr>my_backend = Some 0, heap = [RedisBackend empty_service], stdout = [''redis'']\<rparr>)"
proof -
  have first: "get_backend (world_of ''redis'') initial_state =
     (0, \<lparr>my_backend = Some 0, heap = [RedisBackend empty_service], stdout = [''redis'']\<rparr>)"
    by (simp add: get_backend_def world_of_def initial_state_def getenv_def alloc_def
          new_RedisBackend_def)
  from get_backend_cached [OF first] show ?thesis
    using first by simp
qed

text \<open>
  Claim C7. An access with \<^verbatim>\<open>BACKEND\<close> unset and an access with \<^verbatim>\<open>BACKEND=memory\<close> return
  the same reference and leave the same state, whatever the state before; from the
  uninitialised state both hand out a freshly constructed memory backend, so every
  operation on the selected backend gives the same result in both cases.
\<close>

theorem get_backend_default_memory:
  "environ w ''BACKEND'' = None \<Longrightarrow> environ w' ''BACKEND'' = Some ''memory'' \<Longrightarrow>
     get_backend w s = get_backend w' s
     \<and> selected w s = selected w' s
     \<and> (my_backend s = None \<longrightarrow> selected w s = Some new_MemoryBackend)"
  by (cases "my_backend s")
     (auto simp: get_backend_None get_backend_Some selected_def deref_def getenv_def)

theorem get_backend_default_memory_witness:
  "environ world_unset ''BACKEND'' = None
   \<and> environ (world_of ''memory'') ''BACKEND'' = Some ''memory''
   \<and> my_backend initial_state = None
   \<and> get_backend world_unset initial_state = get_backend (world_of ''memory'') initial_state
   \<and> selected world_unset initial_state = Some (MemoryBackend [])"
proof -
  have unset: "environ world_unset ''BACKEND'' = None"
    by (simp add: world_unset_def)
  have explicit: "environ (world_of ''memory'') ''BACKEND'' = Some ''memory''"
    by (simp add: world_of_def)
  have uninit: "my_backend initial_state = None"
    by (simp add: initial_state_def)
  have same: "get_backend world_unset initial_state = get_backend (world_of ''memory'') initial_state"
    and fresh: "my_backend initial_state = None \<longrightarrow>
      selected world_unset initial_state = Some new_MemoryBackend"
    using get_backend_default_memory [OF unset explicit, of initial_state] by blast+
  from fresh uninit have "selected world_unset initial_state = Some (MemoryBackend [])"
    by (simp add: new_MemoryBackend_def)
  with unset explicit uninit same show ?thesis
    by blast
qed

lemma construct_and_assign_eq:
  "construct_and_assign w s =
     (length (heap s),
      s\<lparr>stdout := stdout s @ [getenv w ''BACKEND'' ''memory''],
        heap := heap s @
          [if environ w ''BACKEND'' = Some ''redis'' then new_RedisBackend w
           else if environ w ''BACKEND'' = Some ''gcs'' then new_GCSBackend w
           else new_MemoryBackend],
        my_backend := Some (length (heap s))\<rparr>)"
  by (simp add: construct_and_assign_def alloc_def Let_def getenv_BACKEND_redis getenv_BACKEND_gcs)

lemma steps_are_get_backend:
  "(case caller_step w s Entered of (c, s1) \<Rightarrow> caller_step w s1 c) =
     (case get_backend w s of (a, s') \<Rightarrow> (Returned a, s'))"
  by (cases "my_backend s")
     (simp_all add: get_backend_None get_backend_Some construct_and_assign_eq)










section \<open>Properties of the backends\<close>

lemma map_of_upsert: "map_of (upsert k v kvs) = (map_of kvs)(k \<mapsto> v)"
  by (induction kvs) (auto simp: fun_eq_iff)

lemma keys_upsert: "set (map fst (upsert k v kvs)) = insert k (set (map fst kvs))"
  by (induction kvs) auto

lemma Backend_set_available:
  "available b \<Longrightarrow> \<exists>b'. Backend_set k r b = Inr b' \<and> available b'"
  by (cases b) (simp_all add: service_set_def)

lemma Backend_set_unavailable:
  "\<not> available b \<Longrightarrow> Backend_set k r b = Inl BackendUnavailable"
  by (cases b) (simp_all add: service_set_def)

lemma Backend_set_get:
  "Backend_set k r b = Inr b' \<Longrightarrow>
     Backend_get k b' = Inr \<lparr>note_id = k, title = req_title r, content = req_content r\<rparr>"
  by (cases b)
     (auto simp: service_set_def service_get_def map_of_upsert serialize_def deserialize_def
        split: if_splits)

lemma Backend_set_get_other:
  "Backend_set k r b = Inr b' \<Longrightarrow> k' \<noteq> k \<Longrightarrow> Backend_get k' b' = Backend_get k' b"
  by (cases b) (auto simp: service_set_def service_get_def map_of_upsert split: if_splits)

lemma Backend_set_stored_keys:
  "Backend_set k r b = Inr b' \<Longrightarrow> set (stored_keys b') = insert k (set (stored_keys b))"
  by (cases b) (auto simp: service_set_def keys_upsert simp del: set_map split: if_splits)

lemma Backend_get_absent:
  "available b \<Longrightarrow> k \<notin> set (stored_keys b) \<Longrightarrow> Backend_get k b = Inl NotFound"
  by (cases b) (auto simp: service_get_def map_of_eq_None_iff split: option.splits)

lemma Backend_get_present:
  "available b \<Longrightarrow> k \<in> set (stored_keys b) \<Longrightarrow> \<exists>n. Backend_get k b = Inr n"
  by (cases b) (auto simp: service_get_def map_of_eq_None_iff image_iff split: option.splits)

lemma Backend_keys_Inr:
  "Backend_keys b = Inr ks \<Longrightarrow> available b \<and> ks = stored_keys b"
  by (cases b) (auto simp: service_keys_def split: if_splits)

lemma run_sets_absent:
  "available b \<Longrightarrow> k \<notin> set (stored_keys b) \<Longrightarrow> k \<notin> fst ` set cs \<Longrightarrow>
     \<exists>b'. run_sets cs b = Inr b' \<and> available b' \<and> k \<notin> set (stored_keys b')"
proof (induction cs arbitrary: b)
  case Nil
  then show ?case by simp
next
  case (Cons c cs)
  from Cons.prems(1) obtain b1 where b1: "Backend_set (fst c) (snd c) b = Inr b1" "available b1"
    using Backend_set_available by blast
  from Cons.prems have "k \<noteq> fst c" "k \<notin> fst ` set cs" by auto
  with b1 Cons.prems(2) have "k \<notin> set (stored_keys b1)"
    by (simp add: Backend_set_stored_keys)
  from Cons.IH [OF b1(2) this \<open>k \<notin> fst ` set cs\<close>] b1(1) show ?case
    by (simp add: update_note_def)
qed

text \<open>
  Claim C4, as the backends have it. On a backend whose store can be reached (the memory
  variant always, the remote-cache and object-store variants when their service is
  reachable), \<^verbatim>\<open>set(id, request)\<close> and then \<^verbatim>\<open>get(id)\<close> returns a note with that
  identifier and with the title and the content of the request. On a backend whose
  service cannot be reached the sequence fails with \<open>BackendUnavailable\<close>.
\<close>

theorem set_then_get_roundtrip:
  "(available b \<longrightarrow>
      (\<exists>n. set_then_get k r b = Inr n \<and> note_id n = k
         \<and> title n = req_title r \<and> content n = req_content r))
   \<and> (\<not> available b \<longrightarrow> set_then_get k r b = Inl BackendUnavailable)"
proof (cases "available b")
  case True
  then obtain b' where "Backend_set k r b = Inr b'"
    using Backend_set_available by blast
  with True show ?thesis
    using Backend_set_get [of k r b b']
    by (simp add: set_then_get_def update_note_def get_note_def)
next
  case False
  then show ?thesis
    by (simp add: set_then_get_def update_note_def Backend_set_unavailable)
qed

theorem set_then_get_roundtrip_witness:
  "available (RedisBackend empty_service)
   \<and> set_then_get ''n1'' request1 (RedisBackend empty_service) =
       Inr \<lparr>note_id = ''n1'', title = ''shopping'', content = ''milk''\<rparr>
   \<and> \<not> available (GCSBackend unreachable_service)
   \<and> set_then_get ''n1'' request1 (GCSBackend unreachable_service) = Inl BackendUnavailable"
proof -
  have up: "available (RedisBackend empty_service)"
    by (simp add: empty_service_def)
  have down: "\<not> available (GCSBackend unreachable_service)"
    by (simp add: unreachable_service_def)
  have "\<exists>n. set_then_get ''n1'' request1 (RedisBackend empty_service) = Inr n \<and> note_id n = ''n1''
         \<and> title n = req_title request1 \<and> content n = req_content request1"
    using set_then_get_roundtrip [of "RedisBackend empty_service" "''n1''" request1] up by blast
  then have first: "set_then_get ''n1'' request1 (RedisBackend empty_service) =
       Inr \<lparr>note_id = ''n1'', title = ''shopping'', content = ''milk''\<rparr>"
    by (auto simp: request1_def)
  have second: "set_then_get ''n1'' request1 (GCSBackend unreachable_service) = Inl BackendUnavailable"
    using set_then_get_roundtrip [of "GCSBackend unreachable_service" "''n1''" request1] down by blast
  from up down first second show ?thesis by blast
qed

text \<open>
  Claim C4, as stated, holds for every backend variant. On the remote-cache variant
  with an unreachable service the \<^verbatim>\<open>set\<close> call fails and no note is returned.
\<close>

theorem set_then_get_unreachable_counterexample:
  "set_then_get ''n1'' request1 (RedisBackend unreachable_service) = Inl BackendUnavailable
   \<and> set_then_get ''n1'' request1 (RedisBackend unreachable_service)
       \<noteq> Inr \<lparr>note_id = ''n1'', title = req_title request1, content = req_content request1\<rparr>"
  by (simp add: set_then_get_def update_note_def service_set_def unreachable_service_def)

text \<open>
  Claim C5, as the backends have it. \<^verbatim>\<open>set(id, request1)\<close>, \<^verbatim>\<open>set(id, request2)\<close> and then
  \<^verbatim>\<open>get(id)\<close> gives what \<^verbatim>\<open>set(id, request2)\<close> and then \<^verbatim>\<open>get(id)\<close> gives: nothing of
  the first request is left. On a backend whose store can be reached the result is the
  note with the title and the content of the second request.
\<close>

theorem set_overwrites:
  "set_set_then_get k r1 r2 b = set_then_get k r2 b
   \<and> (available b \<longrightarrow>
        set_set_then_get k r1 r2 b =
          Inr \<lparr>note_id = k, title = req_title r2, content = req_content r2\<rparr>)"
proof (cases "available b")
  case True
  then obtain b1 where b1: "Backend_set k r1 b = Inr b1" "available b1"
    using Backend_set_available by blast
  then obtain b2 where b2: "Backend_set k r2 b1 = Inr b2"
    using Backend_set_available by blast
  from True obtain b3 where b3: "Backend_set k r2 b = Inr b3"
    using Backend_set_available by blast
  from b1 b2 b3 show ?thesis
    using Backend_set_get [OF b2] Backend_set_get [OF b3]
    by (simp add: set_set_then_get_def set_then_get_def update_note_def get_note_def)
next
  case False
  then show ?thesis
    by (simp add: set_set_then_get_def set_then_get_def update_note_def Backend_set_unavailable)
qed

theorem set_overwrites_witness:
  "available (MemoryBackend [])
   \<and> set_set_then_get ''n1'' request1 request2 (MemoryBackend []) =
       Inr \<lparr>note_id = ''n1'', title = ''todo'', content = ''call''\<rparr>"
proof -
  have up: "available (MemoryBackend [])" by simp
  have "set_set_then_get ''n1'' request1 request2 (MemoryBackend []) =
      Inr \<lparr>note_id = ''n1'', title = req_title request2, content = req_content request2\<rparr>"
    using set_overwrites [of "''n1''" request1 request2 "MemoryBackend []"] up by blast
  then have "set_set_then_get ''n1'' request1 request2 (MemoryBackend []) =
       Inr \<lparr>note_id = ''n1'', title = ''todo'', content = ''call''\<rparr>"
    by (simp add: request2_def)
  with up show ?thesis by blast
qed

text \<open>
  Claim C5, as stated, promises the data of the second request on every backend. On the
  object-store variant with an unreachable service the first \<^verbatim>\<open>set\<close> call fails.
\<close>

theorem set_overwrites_unreachable_counterexample:
  "set_set_then_get ''n1'' request1 request2 (GCSBackend unreachable_service)
     = Inl BackendUnavailable
   \<and> set_set_then_get ''n1'' request1 request2 (GCSBackend unreachable_service)
       \<noteq> Inr \<lparr>note_id = ''n1'', title = req_title request2, content = req_content request2\<rparr>"
  by (simp add: set_set_then_get_def update_note_def service_set_def unreachable_service_def)

text \<open>
  Claim C6, as the backends have it. On a freshly constructed memory backend, after any
  history of \<^verbatim>\<open>set\<close> calls none of which has the identifier \<open>k\<close>, \<^verbatim>\<open>get(k)\<close> fails with
  \<open>NotFound\<close>. The same holds from any backend whose store can be reached and holds no
  note under \<open>k\<close>.
\<close>

theorem get_never_set_NotFound:
  "(k \<notin> fst ` set cs \<longrightarrow>
      (\<exists>b'. run_sets cs new_MemoryBackend = Inr b' \<and> get_note k b' = Inl NotFound))
   \<and> (available b \<and> k \<notin> set (stored_keys b) \<and> k \<notin> fst ` set cs \<longrightarrow>
      (\<exists>b'. run_sets cs b = Inr b' \<and> get_note k b' = Inl NotFound))"
proof -
  have general: "\<exists>b'. run_sets cs b0 = Inr b' \<and> get_note k b' = Inl NotFound"
    if "available b0" "k \<notin> set (stored_keys b0)" "k \<notin> fst ` set cs" for b0
    using run_sets_absent [OF that] Backend_get_absent
    by (auto simp: get_note_def)
  have "available new_MemoryBackend" "k \<notin> set (stored_keys new_MemoryBackend)"
    by (simp_all add: new_MemoryBackend_def)
  with general show ?thesis by blast
qed

theorem get_never_set_NotFound_witness:
  "''n2'' \<notin> fst ` set [(''n1'', request1), (''n3'', request2)]
   \<and> run_sets [(''n1'', request1), (''n3'', request2)] new_MemoryBackend =
       Inr (MemoryBackend
         [(''n1'', \<lparr>note_id = ''n1'', title = ''shopping'', content = ''milk''\<rparr>),
          (''n3'', \<lparr>note_id = ''n3'', title = ''todo'', content = ''call''\<rparr>)])
   \<and> get_note ''n2'' (MemoryBackend
         [(''n1'', \<lparr>note_id = ''n1'', title = ''shopping'', content = ''milk''\<rparr>),
          (''n3'', \<lparr>note_id = ''n3'', title = ''todo'', content = ''call''\<rparr>)]) = Inl NotFound
   \<and> available (RedisBackend empty_service)
   \<and> ''n2'' \<notin> set (stored_keys (RedisBackend empty_service))
   \<and> (\<exists>b'. run_sets [(''n1'', request1), (''n3'', request2)] (RedisBackend empty_service) = Inr b'
         \<and> get_note ''n2'' b' = Inl NotFound)"
proof -
  have fresh: "''n2'' \<notin> fst ` set [(''n1'', request1), (''n3'', request2)]"
    by simp
  have run: "run_sets [(''n1'', request1), (''n3'', request2)] new_MemoryBackend =
       Inr (MemoryBackend
         [(''n1'', \<lparr>note_id = ''n1'', title = ''shopping'', content = ''milk''\<rparr>),
          (''n3'', \<lparr>note_id = ''n3'', title = ''todo'', content = ''call''\<rparr>)])"
    by (simp add: new_MemoryBackend_def update_note_def request1_def request2_def)
  have up: "available (RedisBackend empty_service)"
    and absent: "''n2'' \<notin> set (stored_keys (RedisBackend empty_service))"
    by (simp_all add: empty_service_def)
  note inst = get_never_set_NotFound [of "''n2''" "[(''n1'', request1), (''n3'', request2)]"
      "RedisBackend empty_service"]
  from inst fresh run have mem: "get_note ''n2'' (MemoryBackend
         [(''n1'', \<lparr>note_id = ''n1'', title = ''shopping'', content = ''milk''\<rparr>),
          (''n3'', \<lparr>note_id = ''n3'', title = ''todo'', content = ''call''\<rparr>)]) = Inl NotFound"
    by auto
  from inst fresh up absent
  have net: "\<exists>b'. run_sets [(''n1'', request1), (''n3'', request2)] (RedisBackend empty_service) = Inr b'
         \<and> get_note ''n2'' b' = Inl NotFound"
    by blast
  from fresh run mem up absent net show ?thesis by blast
qed

text \<open>
  Claim C6, as stated, holds for every backend variant. On the remote-cache variant with
  an unreachable service \<^verbatim>\<open>get\<close> fails with \<open>BackendUnavailable\<close>, not \<open>NotFound\<close>; and
  the object-store backend that the selector constructs on a bucket that already holds
  an object returns it, although \<^verbatim>\<open>set\<close> was never called.
\<close>

theorem get_never_set_counterexample:
  "get_note ''n1'' (RedisBackend unreachable_service) = Inl BackendUnavailable
   \<and> get_note ''n1'' (RedisBackend unreachable_service) \<noteq> Inl NotFound
   \<and> selected world_with_note initial_state = Some (new_GCSBackend world_with_note)
   \<and> get_note ''n1'' (new_GCSBackend world_with_note) =
       Inr \<lparr>note_id = ''n1'', title = ''old'', content = ''kept''\<rparr>
   \<and> get_note ''n1'' (new_GCSBackend world_with_note) \<noteq> Inl NotFound"
  by (simp add: get_note_def service_get_def unreachable_service_def new_GCSBackend_def
        world_with_note_def deserialize_def selected_def get_backend_def getenv_def
        initial_state_def alloc_def deref_def)

section \<open>Properties of the request handlers\<close>

lemma get_notes_loop_collect:
  "get_notes_loop b ks acc =
     (case collect (map (\<lambda>k. Backend_get k b) ks) of
        Inl e \<Rightarrow> Inl e
      | Inr ns \<Rightarrow> Inr (acc @ ns))"
  by (induction ks arbitrary: acc) (auto split: sum.splits)

lemma collect_all_Inr:
  "\<forall>k \<in> set ks. \<exists>n. f k = Inr n \<Longrightarrow>
     \<exists>ns. collect (map f ks) = Inr ns \<and> length ns = length ks
       \<and> (\<forall>i < length ks. f (ks ! i) = Inr (ns ! i))"
proof (induction ks)
  case Nil
  then show ?case by simp
next
  case (Cons k ks)
  then obtain n where n: "f k = Inr n" by auto
  from Cons obtain ns where ns: "collect (map f ks) = Inr ns" "length ns = length ks"
    "\<forall>i < length ks. f (ks ! i) = Inr (ns ! i)" by auto
  have "\<forall>i < length (k # ks). f ((k # ks) ! i) = Inr ((n # ns) ! i)"
    using n ns(3) by (auto simp: nth_Cons split: nat.splits)
  with n ns show ?case by auto
qed

text \<open>
  Claim C8. For every backend, \<^verbatim>\<open>get_notes\<close> calls \<^verbatim>\<open>keys()\<close>, then \<^verbatim>\<open>get(key)\<close> for each
  key returned, in order, and returns the list of the notes that these calls returned;
  an exception of \<^verbatim>\<open>keys()\<close> or of one of the \<^verbatim>\<open>get\<close> calls is the exception of the
  handler.
\<close>

theorem get_notes_keys_then_get:
  "get_notes b =
     (case Backend_keys b of
        Inl e \<Rightarrow> Inl e
      | Inr ks \<Rightarrow> collect (map (\<lambda>k. Backend_get k b) ks))"
  by (auto simp: get_notes_def get_notes_loop_collect split: sum.splits)

text \<open>
  Claim C9, as the code has it. \<^verbatim>\<open>create_note\<close> makes one \<^verbatim>\<open>set\<close> call, with the identifier
  drawn from \<^verbatim>\<open>uuid4\<close> and the request; the identifier is not compared with the keys
  already stored. When the store of the backend cannot be reached, the call fails with
  \<open>BackendUnavailable\<close> and so does the handler. When it can be reached, the handler
  returns the identifier, the stored keys are the former keys and the identifier, and the
  notes under all other keys are as before. Whenever the handler returns, the string
  returned is the identifier drawn, the backend holds a note under that key, and \<^verbatim>\<open>get\<close>
  of that key returns the title and the content of the request.
\<close>

theorem create_note_stores_and_returns:
  "create_note u r b =
     (case Backend_set u r b of Inl e \<Rightarrow> Inl e | Inr b' \<Rightarrow> Inr (u, b'))
   \<and> (\<not> available b \<longrightarrow> create_note u r b = Inl BackendUnavailable)
   \<and> (available b \<longrightarrow>
        (\<exists>b'. create_note u r b = Inr (u, b')
           \<and> set (stored_keys b') = insert u (set (stored_keys b))
           \<and> (\<forall>k. k \<noteq> u \<longrightarrow> get_note k b' = get_note k b)))
   \<and> (\<forall>nid b'. create_note u r b = Inr (nid, b') \<longrightarrow>
         nid = u
         \<and> Backend_set nid r b = Inr b'
         \<and> nid \<in> set (stored_keys b')
         \<and> get_note nid b' =
             Inr \<lparr>note_id = nid, title = req_title r, content = req_content r\<rparr>)"
proof -
  have eq: "create_note u r b =
     (case Backend_set u r b of Inl e \<Rightarrow> Inl e | Inr b' \<Rightarrow> Inr (u, b'))"
    by (simp add: create_note_def Let_def)
  have fails: "create_note u r b = Inl BackendUnavailable" if "\<not> available b"
    using Backend_set_unavailable [OF that, of u r] by (simp add: eq)
  have returns: "\<exists>b'. create_note u r b = Inr (u, b')
           \<and> set (stored_keys b') = insert u (set (stored_keys b))
           \<and> (\<forall>k. k \<noteq> u \<longrightarrow> get_note k b' = get_note k b)" if "available b"
  proof -
    from that obtain b' where b': "Backend_set u r b = Inr b'"
      using Backend_set_available by blast
    then have "create_note u r b = Inr (u, b')"
      by (simp add: eq)
    moreover from b' have "set (stored_keys b') = insert u (set (stored_keys b))"
      by (rule Backend_set_stored_keys)
    moreover from b' have "\<forall>k. k \<noteq> u \<longrightarrow> get_note k b' = get_note k b"
      by (simp add: get_note_def Backend_set_get_other)
    ultimately show ?thesis by blast
  qed
  have stored: "nid = u \<and> Backend_set nid r b = Inr b' \<and> nid \<in> set (stored_keys b')
      \<and> get_note nid b' = Inr \<lparr>note_id = nid, title = req_title r, content = req_content r\<rparr>"
    if "create_note u r b = Inr (nid, b')" for nid b'
  proof -
    from that have "nid = u" "Backend_set u r b = Inr b'"
      by (auto simp: eq split: sum.splits)
    then show ?thesis
      using Backend_set_get [of u r b b'] Backend_set_stored_keys [of u r b b']
      by (simp add: get_note_def)
  qed
  from eq fails returns stored show ?thesis by blast
qed

theorem create_note_stores_and_returns_witness:
  "available (MemoryBackend [])
   \<and> create_note ''7d2c'' request1 (MemoryBackend []) =
       Inr (''7d2c'', MemoryBackend
         [(''7d2c'', \<lparr>note_id = ''7d2c'', title = ''shopping'', content = ''milk''\<rparr>)])
   \<and> get_note ''7d2c'' (MemoryBackend
         [(''7d2c'', \<lparr>note_id = ''7d2c'', title = ''shopping'', content = ''milk''\<rparr>)]) =
       Inr \<lparr>note_id = ''7d2c'', title = ''shopping'', content = ''milk''\<rparr>
   \<and> \<not> available (RedisBackend unreachable_service)
   \<and> create_note ''7d2c'' request1 (RedisBackend unreachable_service) = Inl BackendUnavailable"
proof -
  have up: "available (MemoryBackend [])" by simp
  have down: "\<not> available (RedisBackend unreachable_service)"
    by (simp add: unreachable_service_def)
  have run: "create_note ''7d2c'' request1 (MemoryBackend []) =
       Inr (''7d2c'', MemoryBackend
         [(''7d2c'', \<lparr>note_id = ''7d2c'', title = ''shopping'', content = ''milk''\<rparr>)])"
    by (simp add: create_note_def request1_def Let_def)
  from create_note_stores_and_returns [of "''7d2c''" request1 "MemoryBackend []"] run
  have "get_note ''7d2c'' (MemoryBackend
         [(''7d2c'', \<lparr>note_id = ''7d2c'', title = ''shopping'', content = ''milk''\<rparr>)]) =
       Inr \<lparr>note_id = ''7d2c'', title = req_title request1, content = req_content request1\<rparr>"
    by blast
  then have got: "get_note ''7d2c'' (MemoryBackend
         [(''7d2c'', \<lparr>note_id = ''7d2c'', title = ''shopping'', content = ''milk''\<rparr>)]) =
       Inr \<lparr>note_id = ''7d2c'', title = ''shopping'', content = ''milk''\<rparr>"
    by (simp add: request1_def)
  from create_note_stores_and_returns [of "''7d2c''" request1 "RedisBackend unreachable_service"] down
  have failed: "create_note ''7d2c'' request1 (RedisBackend unreachable_service) =
      Inl BackendUnavailable"
    by blast
  from up run got down failed show ?thesis by blast
qed

text \<open>
  Claim C9, as stated, has every create request store its note under a fresh identifier
  and return it. On a remote-cache backend with an unreachable service nothing is stored
  or returned; and when the identifier drawn is already a key of the backend, the note
  stored under it is overwritten.
\<close>

theorem create_note_counterexample:
  "create_note ''7d2c'' request1 (RedisBackend unreachable_service) = Inl BackendUnavailable
   \<and> ''7d2c'' \<in> set (stored_keys (MemoryBackend
        [(''7d2c'', \<lparr>note_id = ''7d2c'', title = ''old'', content = ''kept''\<rparr>)]))
   \<and> create_note ''7d2c'' request1 (MemoryBackend
        [(''7d2c'', \<lparr>note_id = ''7d2c'', title = ''old'', content = ''kept''\<rparr>)]) =
       Inr (''7d2c'', MemoryBackend
         [(''7d2c'', \<lparr>note_id = ''7d2c'', title = ''shopping'', content = ''milk''\<rparr>)])"
  by (simp add: create_note_def service_set_def unreachable_service_def request1_def Let_def)

text \<open>
  Claim C10. Whenever \<^verbatim>\<open>keys()\<close> returns a list of identifiers, \<^verbatim>\<open>get_notes\<close> returns a
  list of the same length whose \<open>i\<close>-th element is the note that \<^verbatim>\<open>get\<close> returns for the
  \<open>i\<close>-th identifier; for the empty list of identifiers it returns the empty list.
\<close>

theorem get_notes_one_per_key:
  "Backend_keys b = Inr ks \<Longrightarrow>
     \<exists>notes. get_notes b = Inr notes
       \<and> length notes = length ks
       \<and> (\<forall>i < length ks. Backend_get (ks ! i) b = Inr (notes ! i))
       \<and> (ks = [] \<longrightarrow> notes = [])"
proof -
  assume keys: "Backend_keys b = Inr ks"
  then have "available b" "ks = stored_keys b"
    using Backend_keys_Inr by blast+
  then have "\<forall>k \<in> set ks. \<exists>n. Backend_get k b = Inr n"
    using Backend_get_present by blast
  from collect_all_Inr [of ks "\<lambda>k. Backend_get k b", OF this] keys show ?thesis
    by (auto simp: get_notes_def get_notes_loop_collect)
qed

theorem get_notes_one_per_key_witness:
  "Backend_keys (MemoryBackend
       [(''n1'', \<lparr>note_id = ''n1'', title = ''shopping'', content = ''milk''\<rparr>),
        (''n3'', \<lparr>note_id = ''n3'', title = ''todo'', content = ''call''\<rparr>)]) = Inr [''n1'', ''n3'']
   \<and> get_notes (MemoryBackend
       [(''n1'', \<lparr>note_id = ''n1'', title = ''shopping'', content = ''milk''\<rparr>),
        (''n3'', \<lparr>note_id = ''n3'', title = ''todo'', content = ''call''\<rparr>)]) =
       Inr [\<lparr>note_id = ''n1'', title = ''shopping'', content = ''milk''\<rparr>,
            \<lparr>note_id = ''n3'', title = ''todo'', content = ''call''\<rparr>]
   \<and> Backend_keys (MemoryBackend []) = Inr []
   \<and> get_notes (MemoryBackend []) = Inr []"
proof -
  let ?b = "MemoryBackend
       [(''n1'', \<lparr>note_id = ''n1'', title = ''shopping'', content = ''milk''\<rparr>),
        (''n3'', \<lparr>note_id = ''n3'', title = ''todo'', content = ''call''\<rparr>)]"
  have keys: "Backend_keys ?b = Inr [''n1'', ''n3'']" by simp
  have none: "Backend_keys (MemoryBackend []) = Inr []" by simp
  from get_notes_one_per_key [OF keys] obtain ns where
    ns: "get_notes ?b = Inr ns" "length ns = 2"
      "\<forall>i < 2. Backend_get ([''n1'', ''n3''] ! i) ?b = Inr (ns ! i)"
    by auto
  from ns(3) have "Backend_get ''n1'' ?b = Inr (ns ! 0)" "Backend_get ''n3'' ?b = Inr (ns ! 1)"
    by (auto dest: spec [of _ 0] spec [of _ 1])
  then have "ns ! 0 = \<lparr>note_id = ''n1'', title = ''shopping'', content = ''milk''\<rparr>"
    "ns ! 1 = \<lparr>note_id = ''n3'', title = ''todo'', content = ''call''\<rparr>"
    by simp_all
  with ns(2) have "ns = [\<lparr>note_id = ''n1'', title = ''shopping'', content = ''milk''\<rparr>,
            \<lparr>note_id = ''n3'', title = ''todo'', content = ''call''\<rparr>]"
    by (cases ns; cases "tl ns"; cases "tl (tl ns)") auto
  with ns(1) have full: "get_notes ?b = Inr [\<lparr>note_id = ''n1'', title = ''shopping'', content = ''milk''\<rparr>,
            \<lparr>note_id = ''n3'', title = ''todo'', content = ''call''\<rparr>]"
    by simp
  from get_notes_one_per_key [OF none] have empty: "get_notes (MemoryBackend []) = Inr []"
    by auto
  from keys full none empty show ?thesis by blast
qed

end
